theory Spec2Isabelle
  imports Complex_Main
begin

section \<open>Python strings\<close>

text \<open>
  A Python \<open>str\<close> is a sequence of Unicode code points; \<open>len\<close> counts code points.
  It is modelled as a list of naturals. \<open>py\<close> reads an ASCII literal.
\<close>

type_synonym str = "nat list"

definition py :: "string \<Rightarrow> str" where
  "py cs = map of_char cs"

section \<open>Configuration (config.py)\<close>

text \<open>
  The FSM parameters of class \<open>Config\<close>. \<open>MIN_CONFIDENCE\<close> is the Python float
  literal \<open>0.4\<close>, whose exact value is \<open>3602879701896397 / 2^53\<close>.
\<close>

record config =
  START_STREAK :: int
  END_STREAK :: int
  MIN_SIGN_FRAMES :: int
  MAX_SIGN_FRAMES :: int
  MIN_CONFIDENCE :: real

definition Config :: config where
  "Config = \<lparr> START_STREAK = 4, END_STREAK = 6, MIN_SIGN_FRAMES = 12,
              MAX_SIGN_FRAMES = 96,
              MIN_CONFIDENCE = 3602879701896397 / 9007199254740992 \<rparr>"

section \<open>The gesture segmenter (deaf\_mode.py)\<close>

text \<open>
  \<open>self.IDLE, self.RECORDING = 0, 1\<close>; \<open>process_fsm\<close> tests \<open>self.state == self.IDLE\<close>
  and treats everything else as RECORDING.
\<close>

datatype fsm_state = IDLE | RECORDING

text \<open>
  One line printed by \<open>classify_sequence\<close>: the gloss, \<open>p=conf\<close>, \<open>frames=len(seq_buffer)\<close>
  and whether the \<open>[LOW]\<close> marker is printed. The wall-clock time stamp is left out.
\<close>

datatype diag = Diag (diag_gloss: str) (diag_p: real) (diag_frames: nat) (diag_low: bool)

text \<open>
  The fields of \<open>DeafModeWindow\<close> that the segmenter reads and writes. \<open>'a\<close> is the type
  of one frame's landmark vector. \<open>stdout\<close> collects the diagnostic lines; \<open>emitted\<close> is
  an observation trace, not a field of the class: the buffers on which
  \<open>classify_sequence\<close> has been called since the camera was started, in order.
\<close>

record 'a window =
  state :: fsm_state
  present_streak :: int
  absent_streak :: int
  seq_buffer :: "'a list"
  detected_glosses :: "str list"
  stdout :: "diag list"
  emitted :: "'a list list"

text \<open>The reset block of \<open>start_camera\<close> (lines 310--315).\<close>

definition start_camera :: "'a window \<Rightarrow> 'a window" where
  "start_camera w =
     w\<lparr> state := IDLE, present_streak := 0, absent_streak := 0, seq_buffer := [],
        detected_glosses := [], emitted := [] \<rparr>"

definition add_detected_gloss :: "str \<Rightarrow> 'a window \<Rightarrow> 'a window" where
  "add_detected_gloss gloss w = w\<lparr> detected_glosses := detected_glosses w @ [gloss] \<rparr>"

text \<open>
  \<open>classify_sequence\<close>. The pipeline \<open>np.stack\<close>, \<open>normalize_spatial\<close>, \<open>pad_or_truncate\<close>,
  the network, \<open>softmax\<close>, \<open>argmax\<close> and the class table are external to the repository's
  sources; together they are the parameter \<open>classify\<close>, which maps the buffer to the pair
  \<open>(gloss, conf)\<close>. The call is taken to return: an exception raised by the pipeline
  leaves \<open>process_fsm\<close> and ends the camera thread.
\<close>

definition classify_sequence ::
  "config \<Rightarrow> ('a list \<Rightarrow> str \<times> real) \<Rightarrow> 'a window \<Rightarrow> 'a window" where
  "classify_sequence cfg classify w =
     (let (gloss, conf) = classify (seq_buffer w);
          line = (if conf \<ge> MIN_CONFIDENCE cfg
                  then Diag gloss conf (length (seq_buffer w)) False
                  else Diag gloss conf (length (seq_buffer w)) True)
      in add_detected_gloss gloss
           (w\<lparr> stdout := stdout w @ [line], emitted := emitted w @ [seq_buffer w] \<rparr>))"

text \<open>\<open>process_fsm(landmarks, present)\<close>, statement by statement.\<close>

definition process_fsm ::
  "config \<Rightarrow> ('a list \<Rightarrow> str \<times> real) \<Rightarrow> 'a window \<Rightarrow> 'a \<times> bool \<Rightarrow> 'a window" where
  "process_fsm cfg classify w frame =
     (let landmarks = fst frame; present = snd frame in
      if state w = IDLE then
        (let w1 = w\<lparr> absent_streak := 0 \<rparr>;
             w2 = w1\<lparr> present_streak := (if present then present_streak w1 + 1 else 0) \<rparr>
         in if present_streak w2 \<ge> START_STREAK cfg
            then w2\<lparr> state := RECORDING, seq_buffer := [], present_streak := 0 \<rparr>
            else w2)
      else
        (let w1 = w\<lparr> seq_buffer := seq_buffer w @ [landmarks] \<rparr>;
             w2 = w1\<lparr> present_streak := (if present then present_streak w1 + 1 else 0) \<rparr>;
             w3 = w2\<lparr> absent_streak := (if \<not> present then absent_streak w2 + 1 else 0) \<rparr>
         in if absent_streak w3 \<ge> END_STREAK cfg
               \<or> int (length (seq_buffer w3)) \<ge> MAX_SIGN_FRAMES cfg
            then
              (let w4 = (if int (length (seq_buffer w3)) \<ge> MIN_SIGN_FRAMES cfg
                         then classify_sequence cfg classify w3 else w3)
               in w4\<lparr> state := IDLE, present_streak := 0, absent_streak := 0,
                       seq_buffer := [] \<rparr>)
            else w3))"

text \<open>
  The frames that \<open>camera_loop\<close> hands to \<open>process_fsm\<close>, one after the other, as long as
  the camera delivers them.
\<close>

fun camera_loop ::
  "config \<Rightarrow> ('a list \<Rightarrow> str \<times> real) \<Rightarrow> 'a window \<Rightarrow> ('a \<times> bool) list \<Rightarrow> 'a window" where
  "camera_loop cfg classify w [] = w"
| "camera_loop cfg classify w (frame # frames) =
     camera_loop cfg classify (process_fsm cfg classify w frame) frames"

section \<open>Python string methods used by gemini\_service.py\<close>

text \<open>
  \<open>str.isspace\<close> of one code point; \<open>str.strip()\<close> and \<open>str.split()\<close> without
  arguments use the same set of white-space code points.
\<close>

definition isspace :: "nat \<Rightarrow> bool" where
  "isspace c =
     ((9 \<le> c \<and> c \<le> 13) \<or> (28 \<le> c \<and> c \<le> 32) \<or> c = 133 \<or> c = 160 \<or> c = 5760
      \<or> (8192 \<le> c \<and> c \<le> 8202) \<or> c = 8232 \<or> c = 8233 \<or> c = 8239 \<or> c = 8287
      \<or> c = 12288)"

definition py_strip :: "str \<Rightarrow> str" where
  "py_strip s = rev (dropWhile isspace (rev (dropWhile isspace s)))"

text \<open>
  \<open>s.split()\<close>: maximal runs of code points that are not white space. \<open>cur\<close> is the
  word being read.
\<close>

fun split_from :: "str \<Rightarrow> str \<Rightarrow> str list" where
  "split_from cur [] = (if cur = [] then [] else [cur])"
| "split_from cur (c # cs) =
     (if isspace c
      then (if cur = [] then split_from [] cs else cur # split_from [] cs)
      else split_from (cur @ [c]) cs)"

definition py_split :: "str \<Rightarrow> str list" where
  "py_split s = split_from [] s"

fun py_join :: "str \<Rightarrow> str list \<Rightarrow> str" where
  "py_join sep [] = []"
| "py_join sep [x] = x"
| "py_join sep (x # y # ys) = x @ sep @ py_join sep (y # ys)"

text \<open>\<open>s.replace(a, b)\<close> for one-character \<open>a\<close> and \<open>b\<close>.\<close>

definition py_replace :: "nat \<Rightarrow> nat \<Rightarrow> str \<Rightarrow> str" where
  "py_replace a b s = map (\<lambda>c. if c = a then b else c) s"

text \<open>\<open>sub in s\<close>.\<close>

fun py_in :: "str \<Rightarrow> str \<Rightarrow> bool" where
  "py_in sub [] = (sub = [])"
| "py_in sub (c # cs) = (take (length sub) (c # cs) = sub \<or> py_in sub cs)"

text \<open>
  Case mapping. On ASCII, \<open>upper\<close> and \<open>lower\<close> exchange \<open>a..z\<close> and \<open>A..Z\<close> and leave
  every other code point alone. Beyond ASCII the mapping is the Unicode table of the
  Python runtime, which is not part of the repository: it is the parameter \<open>ut\<close>.
  \<open>uc ut c\<close> is the upper-case mapping of the code point \<open>c\<close> (one code point may map
  to several); \<open>lc ut s i\<close> is the lower-case mapping of the code point at position
  \<open>i\<close> of \<open>s\<close> (it may depend on the neighbours, as for the Greek final sigma).
\<close>

record unicode =
  uc :: "nat \<Rightarrow> str"
  lc :: "str \<Rightarrow> nat \<Rightarrow> str"

definition upper_cp :: "unicode \<Rightarrow> nat \<Rightarrow> str" where
  "upper_cp ut c =
     (if 97 \<le> c \<and> c \<le> 122 then [c - 32] else if c < 128 then [c] else uc ut c)"

definition py_upper :: "unicode \<Rightarrow> str \<Rightarrow> str" where
  "py_upper ut s = concat (map (upper_cp ut) s)"

fun lower_from :: "unicode \<Rightarrow> str \<Rightarrow> nat \<Rightarrow> str \<Rightarrow> str" where
  "lower_from ut s i [] = []"
| "lower_from ut s i (c # cs) =
     (if 65 \<le> c \<and> c \<le> 90 then [c + 32] else if c < 128 then [c] else lc ut s i)
       @ lower_from ut s (Suc i) cs"

definition py_lower :: "unicode \<Rightarrow> str \<Rightarrow> str" where
  "py_lower ut s = lower_from ut s 0 s"

section \<open>The translation cascade (gemini\_service.py)\<close>

text \<open>
  What one call of \<open>client.models.generate_content\<close> does: it returns a response whose
  \<open>text\<close> attribute is the string \<open>t\<close> (\<open>Returned (Some t)\<close>), it returns a response that
  carries no text, so that \<open>response.text\<close> is \<open>None\<close> (\<open>Returned None\<close>), or it raises an
  exception \<open>e\<close> and \<open>str(e)\<close> is \<open>s\<close> (\<open>Raised s\<close>). The remote service is the parameter
  \<open>gen\<close>, applied to the model name, the prompt and \<open>max_output_tokens\<close>.
\<close>

datatype outcome = Returned "str option" | Raised str

type_synonym backend = "str \<Rightarrow> str \<Rightarrow> int \<Rightarrow> outcome"

definition MODELS :: "str list" where
  "MODELS = [py ''gemini-1.5-flash'', py ''gemini-2.5-flash-lite'', py ''gemini-2.5-flash'']"

text \<open>
  The lines \<open>try_models\<close> prints: one per attempt (the model worked, its quota is
  exhausted, or another error with the first 100 characters of its text), and a last one
  when every model has failed.
\<close>

datatype log_line = Worked str | Exhausted str | Other_error str str | All_exhausted

definition is_quota_error :: "unicode \<Rightarrow> str \<Rightarrow> bool" where
  "is_quota_error ut error_str =
     (py_in (py ''429'') error_str \<or> py_in (py ''quota'') (py_lower ut error_str)
      \<or> py_in (py ''RESOURCE_EXHAUSTED'') error_str)"

text \<open>
  The body of the \<open>try\<close> block, lines 30--42. \<open>Inr\<close> carries the value returned at line
  42, \<open>Inl\<close> the text \<open>str(e)\<close> of the exception caught at line 44. When \<open>response.text\<close>
  is \<open>None\<close>, \<open>response.text.strip()\<close> at line 40 raises \<open>AttributeError\<close> inside the
  block, with the message \<open>none_has_no_strip\<close>.
\<close>

definition none_has_no_strip :: str where
  "none_has_no_strip =
     [39] @ py ''NoneType'' @ [39] @ py '' object has no attribute '' @ [39] @ py ''strip''
       @ [39]"

fun try_block :: "outcome \<Rightarrow> str + str" where
  "try_block (Returned (Some text)) = Inr (py_strip text)"
| "try_block (Returned None) = Inl none_has_no_strip"
| "try_block (Raised error_str) = Inl error_str"

text \<open>The \<open>for model in MODELS\<close> loop; both branches of the handler continue.\<close>

fun try_models_loop ::
  "unicode \<Rightarrow> backend \<Rightarrow> str list \<Rightarrow> str \<Rightarrow> int \<Rightarrow> str option \<times> log_line list" where
  "try_models_loop ut gen [] prompt max_tokens = (None, [All_exhausted])"
| "try_models_loop ut gen (model # rest) prompt max_tokens =
     (case try_block (gen model prompt max_tokens) of
        Inr result \<Rightarrow> (Some result, [Worked model])
      | Inl error_str \<Rightarrow>
          (let line = (if is_quota_error ut error_str then Exhausted model
                       else Other_error model (take 100 error_str));
               (result, printed) = try_models_loop ut gen rest prompt max_tokens
           in (result, line # printed)))"

definition try_models ::
  "unicode \<Rightarrow> backend \<Rightarrow> str \<Rightarrow> int \<Rightarrow> str option \<times> log_line list" where
  "try_models ut gen prompt max_tokens = try_models_loop ut gen MODELS prompt max_tokens"

text \<open>Python truth of a value that is \<open>None\<close> or a string: \<open>if result:\<close>.\<close>

fun truthy :: "str option \<Rightarrow> bool" where
  "truthy None = False"
| "truthy (Some r) = (r \<noteq> [])"

definition glosses_prompt :: "str \<Rightarrow> str" where
  "glosses_prompt glosses_str =
     py ''Convierte estas glosas de Lengua de Se'' @ [241] @
       py ''as Peruana (LSP) a espa'' @ [241] @ py ''ol natural.'' @ [10, 10] @
       py ''REGLAS LSP:'' @ [10] @
       py ''1. Letras individuales (A, B, C, etc.) = deletreo de nombres propios'' @ [10] @
       py ''2. Verbos est'' @ [225] @
       py ''n en infinitivo: QUERER, IR, TENER, SER, etc.'' @ [10] @
       py ''3. Sustantivos en singular: CASA, PERRO, LIBRO'' @ [10] @ py ''4. Sin art'' @
       [237] @ py ''culos: '' @ [34] @ py ''LA CASA'' @ [34] @ py '' se escribe solo '' @
       [34] @ py ''CASA'' @ [34, 10, 10] @ py ''Glosas: '' @ glosses_str @ [10, 10] @
       py ''Responde SOLO la traducci'' @ [243] @ py ''n en espa'' @ [241] @
       py ''ol natural, sin explicaciones:''"

definition text_prompt :: "str \<Rightarrow> str" where
  "text_prompt text =
     py ''Convierte este texto en espa'' @ [241] @ py ''ol a glosas de Lengua de Se'' @
       [241] @ py ''as Peruana (LSP).'' @ [10, 10] @ py ''REGLAS:'' @ [10] @
       py ''1. Verbos en INFINITIVO y MAY'' @ [218] @ py ''SCULAS: '' @ [34] @
       py ''quiero'' @ [34] @ py '' '' @ [8594] @ py '' QUERER, '' @ [34] @ py ''tengo'' @
       [34] @ py '' '' @ [8594] @ py '' TENER'' @ [10] @
       py ''2. Sustantivos en SINGULAR: '' @ [34] @ py ''casas'' @ [34] @ py '' '' @
       [8594] @ py '' CASA'' @ [10] @ py ''3. SIN art'' @ [237] @
       py ''culos (el, la, los, las, un, una)'' @ [10] @
       py ''4. SIN preposiciones innecesarias (de, del, a, en)'' @ [10] @
       py ''5. Nombres propios DELETREAR: '' @ [34] @ py ''Leo'' @ [34] @ py '' '' @
       [8594] @ py '' L E O'' @ [10] @
       py ''6. Orden puede cambiar para claridad gestual'' @ [10, 10] @ py ''Texto: '' @
       text @ [10, 10] @ py ''Responde SOLO las glosas separadas por espacios, en MAY'' @
       [218] @ py ''SCULAS:''"

text \<open>Lines 93--95 of \<open>glosses_to_natural_text\<close>: the local fallback.\<close>

definition glosses_fallback :: "unicode \<Rightarrow> str list \<Rightarrow> str" where
  "glosses_fallback ut glosses =
     (let result = py_lower ut (py_replace 95 32 (py_join (py '' '') glosses))
      in case result of [] \<Rightarrow> result | c # cs \<Rightarrow> py_upper ut [c] @ cs)"

definition glosses_to_natural_text :: "unicode \<Rightarrow> backend \<Rightarrow> str list \<Rightarrow> str" where
  "glosses_to_natural_text ut gen glosses =
     (if glosses = [] then []
      else
        (let glosses_str = py_join (py '' '') glosses;
             prompt = glosses_prompt glosses_str;
             result = fst (try_models ut gen prompt 100)
         in case result of
              Some r \<Rightarrow> (if truthy result then r else glosses_fallback ut glosses)
            | None \<Rightarrow> glosses_fallback ut glosses))"

text \<open>\<open>re.sub(r'[...]', '', s)\<close> with the eight punctuation marks of line 134.\<close>

definition punctuation :: "nat list" where
  "punctuation = [191, 63, 161, 33, 46, 44, 59, 58]"

fun re_sub_punctuation :: "str \<Rightarrow> str" where
  "re_sub_punctuation [] = []"
| "re_sub_punctuation (c # cs) =
     (if c \<in> set punctuation then re_sub_punctuation cs else c # re_sub_punctuation cs)"

definition stop_words :: "str list" where
  "stop_words =
     [py ''el'', py ''la'', py ''los'', py ''las'', py ''un'', py ''una'', py ''unos'', py ''unas'',
      py ''de'', py ''del'', py ''al'', py ''a'', py ''en'', py ''por'', py ''para'', py ''con'',
      py ''sin'', py ''y'', py ''o'', py ''pero'', py ''si'', py ''no'', py ''que'', py ''como'',
      py ''cuando'', py ''me'', py ''te'', py ''se'', py ''le'', py ''lo'', py ''mi'', py ''tu'',
      py ''su'', py ''es'', py ''son'']"

text \<open>Lines 133--146 of \<open>natural_text_to_glosses\<close>: the local fallback.\<close>

definition text_fallback :: "unicode \<Rightarrow> str \<Rightarrow> str list" where
  "text_fallback ut text =
     (let text_clean = re_sub_punctuation (py_lower ut text);
          words = map (py_upper ut)
                    (filter (\<lambda>w. w \<notin> set stop_words \<and> length w > 1) (py_split text_clean))
      in if words \<noteq> [] then words else [py_upper ut text])"

definition natural_text_to_glosses :: "unicode \<Rightarrow> backend \<Rightarrow> str \<Rightarrow> str list" where
  "natural_text_to_glosses ut gen text =
     (if text = [] \<or> py_strip text = [] then []
      else
        (let prompt = text_prompt text;
             result = fst (try_models ut gen prompt 50)
         in case result of
              Some r \<Rightarrow>
                (if truthy result
                 then map (\<lambda>g. py_upper ut (py_strip g))
                        (filter (\<lambda>g. py_strip g \<noteq> []) (py_split r))
                 else text_fallback ut text)
            | None \<Rightarrow> text_fallback ut text))"

section \<open>Properties to be checked, and sample inputs\<close>

text \<open>
  \<open>has_present_run n ps\<close>: the presence sequence \<open>ps\<close> contains \<open>n\<close> consecutive present
  frames somewhere.
\<close>

definition has_present_run :: "nat \<Rightarrow> bool list \<Rightarrow> bool" where
  "has_present_run n ps =
     list_ex (\<lambda>i. take n (drop i ps) = replicate n True) [0..<Suc (length ps)]"

text \<open>The gesture buffer is empty whenever the state machine is IDLE.\<close>

definition buffer_inv :: "'a window \<Rightarrow> bool" where
  "buffer_inv w = (state w = IDLE \<longrightarrow> seq_buffer w = [])"

text \<open>
  While recording, the buffer is strictly shorter than \<open>MAX_SIGN_FRAMES\<close> between two
  frames; every buffer emitted so far is within the two bounds.
\<close>

definition len_inv :: "config \<Rightarrow> 'a window \<Rightarrow> bool" where
  "len_inv cfg w =
     ((state w = RECORDING \<longrightarrow> int (length (seq_buffer w)) < MAX_SIGN_FRAMES cfg)
      \<and> (\<forall>b \<in> set (emitted w).
            MIN_SIGN_FRAMES cfg \<le> int (length b) \<and> int (length b) \<le> MAX_SIGN_FRAMES cfg))"

text \<open>The ledger holds the gloss of every emitted buffer, in order.\<close>

definition ledger_inv :: "('a list \<Rightarrow> str \<times> real) \<Rightarrow> 'a window \<Rightarrow> bool" where
  "ledger_inv classify w = (detected_glosses w = map (\<lambda>b. fst (classify b)) (emitted w))"

text \<open>
  The stream of the specification's example: 4 present frames, 20 present frames, 6 absent
  frames. Frame \<open>i\<close> carries the landmarks \<open>f i\<close>.
\<close>

definition four_twenty_six :: "(nat \<Rightarrow> 'a) \<Rightarrow> ('a \<times> bool) list" where
  "four_twenty_six f =
     [(f 0, True), (f 1, True), (f 2, True), (f 3, True)]
       @ map (\<lambda>i. (f i, True)) [4..<24] @ map (\<lambda>i. (f i, False)) [24..<30]"

text \<open>A short stream whose longest run of present frames has length 3.\<close>

definition flicker :: "(nat \<times> bool) list" where
  "flicker = [(0, True), (1, True), (2, True), (3, False), (4, True)]"

text \<open>The window as \<open>load_model\<close> leaves it, and a window in the middle of a gesture.\<close>

definition loaded_window :: "nat window" where
  "loaded_window =
     \<lparr> state = IDLE, present_streak = 0, absent_streak = 0, seq_buffer = [],
       detected_glosses = [], stdout = [], emitted = [] \<rparr>"

definition ending_window :: "nat window" where
  "ending_window =
     \<lparr> state = RECORDING, present_streak = 0, absent_streak = 5, seq_buffer = [7, 8, 9],
       detected_glosses = [], stdout = [], emitted = [] \<rparr>"

text \<open>A classifier that always answers \<open>HOLA\<close> with confidence 0.25.\<close>

definition one_gloss :: "'a list \<Rightarrow> str \<times> real" where
  "one_gloss buf = (py ''HOLA'', 1 / 4)"

text \<open>
  \<open>raises gen prompt max_tokens model\<close>: the attempt on \<open>model\<close> ends in the exception
  handler, because the call raises or because the response carries no text.
  \<open>all_fail\<close>: so do the attempts on all of \<open>MODELS\<close>.
\<close>

definition raises :: "backend \<Rightarrow> str \<Rightarrow> int \<Rightarrow> str \<Rightarrow> bool" where
  "raises gen prompt max_tokens model =
     (case try_block (gen model prompt max_tokens) of Inl e \<Rightarrow> True | Inr t \<Rightarrow> False)"

definition all_fail :: "backend \<Rightarrow> str \<Rightarrow> int \<Rightarrow> bool" where
  "all_fail gen prompt max_tokens = list_all (raises gen prompt max_tokens) MODELS"

text \<open>The models named by the per-attempt lines of a log, in order.\<close>

fun line_model :: "log_line \<Rightarrow> str list" where
  "line_model (Worked m) = [m]"
| "line_model (Exhausted m) = [m]"
| "line_model (Other_error m e) = [m]"
| "line_model All_exhausted = []"

definition attempted :: "log_line list \<Rightarrow> str list" where
  "attempted printed = concat (map line_model printed)"

text \<open>The line printed for one attempt, given its outcome.\<close>

definition attempt_line :: "unicode \<Rightarrow> str \<Rightarrow> outcome \<Rightarrow> log_line" where
  "attempt_line ut m out =
     (case try_block out of
        Inr t \<Rightarrow> Worked m
      | Inl e \<Rightarrow> if is_quota_error ut e then Exhausted m else Other_error m (take 100 e))"

text \<open>
  Two facts about the runtime's case tables, as far as they lie beyond ASCII:
  every mapping is a non-empty string, and upper-casing an upper-case mapping changes
  nothing.
\<close>

definition tables_total :: "unicode \<Rightarrow> bool" where
  "tables_total ut =
     ((\<forall>c. 128 \<le> c \<longrightarrow> uc ut c \<noteq> [])
      \<and> (\<forall>s i. i < length s \<and> 128 \<le> s ! i \<longrightarrow> lc ut s i \<noteq> []))"

definition upper_stable :: "unicode \<Rightarrow> bool" where
  "upper_stable ut =
     (\<forall>c. 128 \<le> c \<longrightarrow> uc ut c \<noteq> [] \<and> py_upper ut (uc ut c) = uc ut c)"

text \<open>Tables that leave every code point beyond ASCII as it is.\<close>

definition ascii_only :: unicode where
  "ascii_only = \<lparr> uc = (\<lambda>c. [c]), lc = (\<lambda>s i. [s ! i]) \<rparr>"

text \<open>
  Sample services: one on which every model fails; one whose first model is out of quota
  and whose other models answer \<open>Hola\<close>; one whose first model fails and whose second
  model answers with blanks only; one whose first model returns a response without text
  and whose other models answer \<open>Hola\<close>.
\<close>

definition all_down :: backend where
  "all_down model prompt max_tokens = Raised (py ''503 UNAVAILABLE'')"

definition quota_then_hola :: backend where
  "quota_then_hola model prompt max_tokens =
     (if model = py ''gemini-1.5-flash'' then Raised (py ''429 RESOURCE_EXHAUSTED'')
      else Returned (Some (py '' Hola '')))"

definition error_then_blank :: backend where
  "error_then_blank model prompt max_tokens =
     (if model = py ''gemini-1.5-flash'' then Raised (py ''connection reset'')
      else if model = py ''gemini-2.5-flash-lite'' then Returned (Some (py ''  ''))
      else Returned (Some (py ''Buenos dias'')))"

definition none_then_hola :: backend where
  "none_then_hola model prompt max_tokens =
     (if model = py ''gemini-1.5-flash'' then Returned None
      else Returned (Some (py '' Hola '')))"

section \<open>The segmenter: lemmas\<close>

lemma classify_sequence_fields:
  "state (classify_sequence cfg classify w) = state w"
  "seq_buffer (classify_sequence cfg classify w) = seq_buffer w"
  "present_streak (classify_sequence cfg classify w) = present_streak w"
  "absent_streak (classify_sequence cfg classify w) = absent_streak w"
  "emitted (classify_sequence cfg classify w) = emitted w @ [seq_buffer w]"
  "detected_glosses (classify_sequence cfg classify w) =
     detected_glosses w @ [fst (classify (seq_buffer w))]"
  by (simp_all add: classify_sequence_def add_detected_gloss_def Let_def split: prod.splits)

lemma process_fsm_buffer_inv:
  "buffer_inv w \<Longrightarrow> buffer_inv (process_fsm cfg classify w frame)"
  by (simp add: buffer_inv_def process_fsm_def Let_def)

lemma camera_loop_buffer_inv:
  "buffer_inv w \<Longrightarrow> buffer_inv (camera_loop cfg classify w frames)"
  by (induction frames arbitrary: w) (simp_all add: process_fsm_buffer_inv)

lemma process_fsm_len_inv:
  "0 < MAX_SIGN_FRAMES cfg \<Longrightarrow> len_inv cfg w \<Longrightarrow> len_inv cfg (process_fsm cfg classify w frame)"
  by (cases "state w")
    (auto simp add: len_inv_def process_fsm_def Let_def classify_sequence_fields)

lemma camera_loop_len_inv:
  "0 < MAX_SIGN_FRAMES cfg \<Longrightarrow> len_inv cfg w
   \<Longrightarrow> len_inv cfg (camera_loop cfg classify w frames)"
  by (induction frames arbitrary: w) (simp_all add: process_fsm_len_inv)

lemma process_fsm_ledger_inv:
  "ledger_inv classify w \<Longrightarrow> ledger_inv classify (process_fsm cfg classify w frame)"
  by (cases "state w")
    (auto simp add: ledger_inv_def process_fsm_def Let_def classify_sequence_fields)

lemma camera_loop_ledger_inv:
  "ledger_inv classify w \<Longrightarrow> ledger_inv classify (camera_loop cfg classify w frames)"
  by (induction frames arbitrary: w) (simp_all add: process_fsm_ledger_inv)

lemma has_present_run_iff:
  "has_present_run n ps \<longleftrightarrow> (\<exists>pre post. ps = pre @ replicate n True @ post)"
proof
  assume "has_present_run n ps"
  then obtain i where i: "take n (drop i ps) = replicate n True"
    by (auto simp add: has_present_run_def list_ex_iff)
  have "drop i ps = take n (drop i ps) @ drop n (drop i ps)"
    by (simp only: append_take_drop_id)
  then have "ps = take i ps @ take n (drop i ps) @ drop n (drop i ps)"
    by (metis append_take_drop_id)
  with i show "\<exists>pre post. ps = pre @ replicate n True @ post"
    by metis
next
  assume "\<exists>pre post. ps = pre @ replicate n True @ post"
  then obtain pre post where ps: "ps = pre @ replicate n True @ post"
    by blast
  then have "take n (drop (length pre) ps) = replicate n True" "length pre \<le> length ps"
    by simp_all
  then show "has_present_run n ps"
    unfolding has_present_run_def list_ex_iff by (intro bexI [of _ "length pre"]) auto
qed

lemma has_present_run_prepend:
  "has_present_run n ps \<Longrightarrow> has_present_run n (qs @ ps)"
  unfolding has_present_run_iff by (metis append.assoc)

lemma has_present_run_append:
  "has_present_run n ps \<Longrightarrow> has_present_run n (ps @ qs)"
  unfolding has_present_run_iff by (metis append.assoc)

lemma has_present_run_replicate:
  "n \<le> k \<Longrightarrow> has_present_run n (replicate k True @ ps)"
proof -
  assume "n \<le> k"
  then have "replicate k True @ ps = [] @ replicate n True @ (replicate (k - n) True @ ps)"
    by (simp add: replicate_add [symmetric])
  then show ?thesis unfolding has_present_run_iff by blast
qed

text \<open>
  In IDLE with a streak of \<open>k\<close>, frames that never complete a run of \<open>START_STREAK\<close>
  present frames leave the machine in IDLE and emit nothing.
\<close>

lemma idle_without_run:
  "state w = IDLE \<Longrightarrow> present_streak w = int k
   \<Longrightarrow> \<not> has_present_run (nat (START_STREAK cfg)) (replicate k True @ map snd frames)
   \<Longrightarrow> state (camera_loop cfg classify w frames) = IDLE
       \<and> emitted (camera_loop cfg classify w frames) = emitted w
       \<and> seq_buffer (camera_loop cfg classify w frames) = seq_buffer w"
proof (induction frames arbitrary: w k)
  case Nil
  then show ?case by simp
next
  case (Cons frame frames)
  let ?n = "nat (START_STREAK cfg)"
  let ?w = "process_fsm cfg classify w frame"
  have less: "k < ?n"
    using Cons.prems(3) has_present_run_replicate [of ?n k] by (meson not_le)
  show ?case
  proof (cases "snd frame")
    case True
    have norun: "\<not> has_present_run ?n (replicate (Suc k) True @ map snd frames)"
      using Cons.prems(3) True by (simp add: replicate_app_Cons_same)
    then have "Suc k < ?n"
      using has_present_run_replicate [of ?n "Suc k"] by (meson not_le)
    then have "\<not> START_STREAK cfg \<le> int k + 1"
      by linarith
    then have st: "state ?w = IDLE" "present_streak ?w = int (Suc k)"
      "emitted ?w = emitted w" "seq_buffer ?w = seq_buffer w"
      using Cons.prems(1,2) True by (simp_all add: process_fsm_def Let_def)
    from Cons.IH [OF st(1,2) norun] show ?thesis
      using st by simp
  next
    case False
    have norun: "\<not> has_present_run ?n (replicate 0 True @ map snd frames)"
      using Cons.prems(3)
        has_present_run_prepend [of ?n "map snd frames" "replicate k True @ [snd frame]"]
      by auto
    have "\<not> START_STREAK cfg \<le> 0"
      using less by linarith
    then have st: "state ?w = IDLE" "present_streak ?w = int 0"
      "emitted ?w = emitted w" "seq_buffer ?w = seq_buffer w"
      using Cons.prems(1,2) False by (simp_all add: process_fsm_def Let_def)
    from Cons.IH [OF st(1,2) norun] show ?thesis
      using st by simp
  qed
qed

lemma four_twenty_six_run:
  "emitted (camera_loop Config classify (start_camera w) (four_twenty_six f))
     = [map f [4..<30]]"
  by (simp add: four_twenty_six_def Config_def start_camera_def process_fsm_def
      classify_sequence_def add_detected_gloss_def Let_def split: prod.splits)

section \<open>The segmenter: claims\<close>

text \<open>
  Claim C1, as the code has it. With \<open>START_STREAK = 4\<close>, \<open>END_STREAK = 6\<close>,
  \<open>MIN_SIGN_FRAMES = 12\<close> and \<open>MAX_SIGN_FRAMES = 96\<close>, a stream of 4 present frames, 20
  present frames and 6 absent frames causes exactly one emission. The emitted buffer
  holds frames 4 to 29: the 20 present frames that follow the 4 trigger frames and the 6
  absent frames, which are appended while recording. Its length is 26. The 4 trigger
  frames are consumed in IDLE and never buffered.
\<close>

theorem example_stream_emits_26:
  "emitted (camera_loop Config classify (start_camera w) (four_twenty_six f)) = [map f [4..<30]]
   \<and> map length (emitted (camera_loop Config classify (start_camera w) (four_twenty_six f)))
       = [26]"
  by (simp add: four_twenty_six_run)

text \<open>
  Claim C1 as stated asks for one buffer of length 24. On the stream above the segmenter
  emits one buffer of length 26, not 24.
\<close>

theorem example_stream_not_24:
  "map length (emitted (camera_loop Config one_gloss (start_camera loaded_window)
       (four_twenty_six id))) = [26]
   \<and> map length (emitted (camera_loop Config one_gloss (start_camera loaded_window)
       (four_twenty_six id))) \<noteq> [24]"
  by (simp add: four_twenty_six_run)

text \<open>
  Claim C2. For every sequence of frames fed to the segmenter after \<open>start_camera\<close>, every
  buffer handed to the classifier has at least \<open>MIN_SIGN_FRAMES\<close> and at most
  \<open>MAX_SIGN_FRAMES\<close> frames. This holds for every configuration with a positive
  \<open>MAX_SIGN_FRAMES\<close>, so for \<open>Config\<close>.
\<close>

theorem emitted_length_bounds:
  "0 < MAX_SIGN_FRAMES cfg
   \<Longrightarrow> \<forall>b \<in> set (emitted (camera_loop cfg classify (start_camera w) frames)).
         MIN_SIGN_FRAMES cfg \<le> int (length b) \<and> int (length b) \<le> MAX_SIGN_FRAMES cfg"
proof -
  assume pos: "0 < MAX_SIGN_FRAMES cfg"
  have "len_inv cfg (start_camera w)"
    by (simp add: len_inv_def start_camera_def)
  from camera_loop_len_inv [OF pos this] show ?thesis
    by (simp add: len_inv_def)
qed

text \<open>The bounds at \<open>Config\<close>, on a stream that does emit a buffer.\<close>

theorem emitted_length_bounds_witness:
  "0 < MAX_SIGN_FRAMES Config
   \<and> emitted (camera_loop Config one_gloss (start_camera loaded_window) (four_twenty_six id))
       \<noteq> []
   \<and> list_all (\<lambda>b. 12 \<le> int (length b) \<and> int (length b) \<le> 96)
         (emitted (camera_loop Config one_gloss (start_camera loaded_window)
            (four_twenty_six id)))"
proof -
  have pos: "0 < MAX_SIGN_FRAMES Config"
    by (simp add: Config_def)
  have "MIN_SIGN_FRAMES Config = 12" "MAX_SIGN_FRAMES Config = 96"
    by (simp_all add: Config_def)
  with pos emitted_length_bounds [OF pos, of one_gloss loaded_window "four_twenty_six id"]
  show ?thesis
    by (simp add: four_twenty_six_run list_all_iff)
qed

text \<open>
  Claim C6. If the buffer is empty whenever the machine is IDLE before a frame, it is so
  after the frame, whatever the frame and the transition taken; equivalently a non-empty
  buffer implies RECORDING. The invariant holds after \<open>start_camera\<close> and so after every
  prefix of every stream.
\<close>

theorem buffer_empty_while_idle:
  "buffer_inv w
   \<Longrightarrow> buffer_inv (process_fsm cfg classify w frame)
       \<and> (seq_buffer (process_fsm cfg classify w frame) \<noteq> []
            \<longrightarrow> state (process_fsm cfg classify w frame) = RECORDING)
       \<and> buffer_inv (start_camera w0)
       \<and> buffer_inv (camera_loop cfg classify (start_camera w0) frames)"
proof -
  assume inv: "buffer_inv w"
  have step: "buffer_inv (process_fsm cfg classify w frame)"
    using inv by (rule process_fsm_buffer_inv)
  then have rec: "seq_buffer (process_fsm cfg classify w frame) \<noteq> []
      \<longrightarrow> state (process_fsm cfg classify w frame) = RECORDING"
    unfolding buffer_inv_def by (cases "state (process_fsm cfg classify w frame)") simp_all
  have init: "buffer_inv (start_camera w0)"
    by (simp add: buffer_inv_def start_camera_def)
  from step rec init camera_loop_buffer_inv [OF init] show ?thesis
    by simp
qed

text \<open>
  The invariant across the transition back to IDLE (the sixth absent frame of a gesture)
  and across the transition into RECORDING (the fourth present frame).
\<close>

theorem buffer_empty_while_idle_witness:
  "buffer_inv ending_window
   \<and> state (process_fsm Config one_gloss ending_window (10, False)) = IDLE
   \<and> seq_buffer (process_fsm Config one_gloss ending_window (10, False)) = []
   \<and> buffer_inv (process_fsm Config one_gloss ending_window (10, False))
   \<and> state (camera_loop Config one_gloss (start_camera loaded_window)
        [(0, True), (1, True), (2, True), (3, True)]) = RECORDING
   \<and> buffer_inv (camera_loop Config one_gloss (start_camera loaded_window)
        [(0, True), (1, True), (2, True), (3, True)])"
proof -
  have inv: "buffer_inv ending_window"
    by (simp add: buffer_inv_def ending_window_def)
  have idle: "state (process_fsm Config one_gloss ending_window (10, False)) = IDLE"
    "seq_buffer (process_fsm Config one_gloss ending_window (10, False)) = []"
    by (simp_all add: process_fsm_def ending_window_def Config_def Let_def)
  have rec: "state (camera_loop Config one_gloss (start_camera loaded_window)
        [(0, True), (1, True), (2, True), (3, True)]) = RECORDING"
    by (simp add: process_fsm_def loaded_window_def start_camera_def Config_def Let_def)
  from inv idle rec
    buffer_empty_while_idle [OF inv, of Config one_gloss "(10, False)" loaded_window
      "[(0, True), (1, True), (2, True), (3, True)]"]
  show ?thesis by simp
qed

text \<open>
  Claim C7. If the presence sequence never contains \<open>START_STREAK\<close> consecutive present
  frames, then after every prefix of the stream (\<open>take k frames\<close>, for every \<open>k\<close>) the
  machine is IDLE, nothing has been emitted and the buffer is empty.
\<close>

theorem no_start_streak_no_emission:
  "\<not> has_present_run (nat (START_STREAK cfg)) (map snd frames)
   \<Longrightarrow> state (camera_loop cfg classify (start_camera w) (take k frames)) = IDLE
       \<and> emitted (camera_loop cfg classify (start_camera w) (take k frames)) = []
       \<and> seq_buffer (camera_loop cfg classify (start_camera w) (take k frames)) = []"
proof -
  assume norun: "\<not> has_present_run (nat (START_STREAK cfg)) (map snd frames)"
  have "map snd frames = map snd (take k frames) @ map snd (drop k frames)"
    by (simp flip: map_append)
  with norun have
    "\<not> has_present_run (nat (START_STREAK cfg)) (replicate 0 True @ map snd (take k frames))"
    using has_present_run_append by fastforce
  from idle_without_run [OF _ _ this, of "start_camera w" classify] show ?thesis
    by (simp add: start_camera_def)
qed

text \<open>A stream with runs of 3 and 1 present frames, at \<open>Config\<close>.\<close>

theorem no_start_streak_no_emission_witness:
  "\<not> has_present_run (nat (START_STREAK Config)) (map snd flicker)
   \<and> state (camera_loop Config one_gloss (start_camera loaded_window) (take 5 flicker)) = IDLE
   \<and> emitted (camera_loop Config one_gloss (start_camera loaded_window) (take 5 flicker)) = []"
proof -
  have norun: "\<not> has_present_run (nat (START_STREAK Config)) (map snd flicker)"
    by code_simp
  from norun no_start_streak_no_emission [OF norun, of one_gloss loaded_window 5]
  show ?thesis by simp
qed

text \<open>
  Claim C9. \<open>classify_sequence\<close> appends the recognised gloss to the ledger whatever the
  confidence is; the confidence decides only whether the printed line carries the
  \<open>[LOW]\<close> marker: two classifiers that agree on the gloss and differ in confidence
  leave the same window apart from \<open>stdout\<close>. Over a whole camera session the ledger is
  the list of the glosses of all emitted buffers.
\<close>

theorem low_confidence_still_appended:
  "detected_glosses (classify_sequence cfg classify w)
     = detected_glosses w @ [fst (classify (seq_buffer w))]
   \<and> stdout (classify_sequence cfg classify w)
     = stdout w @ [Diag (fst (classify (seq_buffer w))) (snd (classify (seq_buffer w)))
                     (length (seq_buffer w)) (snd (classify (seq_buffer w)) < MIN_CONFIDENCE cfg)]
   \<and> (classify_sequence cfg (\<lambda>b. (gloss b, conf1 b)) w)\<lparr> stdout := out \<rparr>
     = (classify_sequence cfg (\<lambda>b. (gloss b, conf2 b)) w)\<lparr> stdout := out \<rparr>
   \<and> detected_glosses (camera_loop cfg classify (start_camera w) frames)
     = map (\<lambda>b. fst (classify b)) (emitted (camera_loop cfg classify (start_camera w) frames))"
proof -
  have a: "detected_glosses (classify_sequence cfg classify w)
     = detected_glosses w @ [fst (classify (seq_buffer w))]"
    by (simp add: classify_sequence_fields)
  have b: "stdout (classify_sequence cfg classify w)
     = stdout w @ [Diag (fst (classify (seq_buffer w))) (snd (classify (seq_buffer w)))
                     (length (seq_buffer w)) (snd (classify (seq_buffer w)) < MIN_CONFIDENCE cfg)]"
    by (simp add: classify_sequence_def add_detected_gloss_def Let_def not_le split: prod.splits)
  have c: "(classify_sequence cfg (\<lambda>b. (gloss b, conf1 b)) w)\<lparr> stdout := out \<rparr>
     = (classify_sequence cfg (\<lambda>b. (gloss b, conf2 b)) w)\<lparr> stdout := out \<rparr>"
    by (simp add: classify_sequence_def add_detected_gloss_def Let_def)
  have "ledger_inv classify (start_camera w)"
    by (simp add: ledger_inv_def start_camera_def)
  from camera_loop_ledger_inv [OF this]
  have d: "detected_glosses (camera_loop cfg classify (start_camera w) frames)
     = map (\<lambda>b. fst (classify b)) (emitted (camera_loop cfg classify (start_camera w) frames))"
    by (simp add: ledger_inv_def)
  from a b c d show ?thesis by simp
qed

text \<open>A gloss of confidence 0.25, below \<open>MIN_CONFIDENCE\<close>, is appended.\<close>

theorem low_confidence_still_appended_witness:
  "snd (one_gloss [7, 8, 9 :: nat]) < MIN_CONFIDENCE Config
   \<and> detected_glosses (classify_sequence Config one_gloss ending_window) = [py ''HOLA'']
   \<and> detected_glosses (camera_loop Config one_gloss (start_camera loaded_window)
        (four_twenty_six id)) = [py ''HOLA'']"
proof -
  have low: "snd (one_gloss [7, 8, 9 :: nat]) < MIN_CONFIDENCE Config"
    by (simp add: one_gloss_def Config_def)
  from low low_confidence_still_appended [where cfg = Config and classify = one_gloss
      and w = ending_window]
    low_confidence_still_appended [where cfg = Config and classify = one_gloss
      and w = loaded_window and frames = "four_twenty_six id"]
  show ?thesis
    by (simp add: four_twenty_six_run ending_window_def one_gloss_def)
qed

section \<open>The translation cascade: lemmas and claims\<close>

lemma distinct_MODELS: "distinct MODELS"
  by (simp add: MODELS_def py_def)

lemma raises_Inl [simp]: "try_block (gen m p n) = Inl e \<Longrightarrow> raises gen p n m"
  by (simp add: raises_def)

lemma raises_Inr [simp]: "try_block (gen m p n) = Inr t \<Longrightarrow> \<not> raises gen p n m"
  by (simp add: raises_def)

lemma try_block_result:
  "(case try_block out of Inr t \<Rightarrow> Some t | Inl e \<Rightarrow> None)
     = (case out of
          Returned (Some t) \<Rightarrow> Some (py_strip t)
        | Returned None \<Rightarrow> None
        | Raised e \<Rightarrow> None)"
  by (cases out rule: try_block.cases) simp_all

lemma try_models_loop_Returned:
  "try_block (gen m p n) = Inr t
   \<Longrightarrow> try_models_loop ut gen (m # ms) p n = (Some t, [Worked m])"
  by simp

lemma try_models_loop_Raised:
  "try_block (gen m p n) = Inl e
   \<Longrightarrow> try_models_loop ut gen (m # ms) p n
       = (fst (try_models_loop ut gen ms p n),
          attempt_line ut m (gen m p n) # snd (try_models_loop ut gen ms p n))"
  by (simp add: Let_def case_prod_beta attempt_line_def)

text \<open>From here on the loop is unfolded through the two lemmas above only.\<close>

declare try_models_loop.simps(2) [simp del]

lemma try_models_loop_result:
  "fst (try_models_loop ut gen ms p n) =
     (case dropWhile (raises gen p n) ms of
        [] \<Rightarrow> None
      | m # rest \<Rightarrow> (case try_block (gen m p n) of Inr t \<Rightarrow> Some t | Inl e \<Rightarrow> None))"
proof (induction ms)
  case Nil
  show ?case by simp
next
  case (Cons m ms)
  show ?case
  proof (cases "try_block (gen m p n)")
    case (Inr t)
    then show ?thesis by (simp add: try_models_loop_Returned)
  next
    case (Inl e)
    with Cons.IH show ?thesis by (simp add: try_models_loop_Raised)
  qed
qed

lemma try_models_loop_result_outcome:
  "fst (try_models_loop ut gen ms p n) =
     (case dropWhile (raises gen p n) ms of
        [] \<Rightarrow> None
      | m # rest \<Rightarrow>
          (case gen m p n of
             Returned (Some t) \<Rightarrow> Some (py_strip t)
           | Returned None \<Rightarrow> None
           | Raised e \<Rightarrow> None))"
  unfolding try_models_loop_result
  by (cases "dropWhile (raises gen p n) ms") (simp_all only: list.case try_block_result)

lemma try_models_loop_printed:
  "snd (try_models_loop ut gen ms p n) =
     map (\<lambda>m. attempt_line ut m (gen m p n))
       (takeWhile (raises gen p n) ms @ take 1 (dropWhile (raises gen p n) ms))
     @ (if dropWhile (raises gen p n) ms = [] then [All_exhausted] else [])"
proof (induction ms)
  case Nil
  show ?case by simp
next
  case (Cons m ms)
  show ?case
  proof (cases "try_block (gen m p n)")
    case (Inr t)
    then show ?thesis by (simp add: try_models_loop_Returned attempt_line_def)
  next
    case (Inl e)
    with Cons.IH show ?thesis by (simp add: try_models_loop_Raised)
  qed
qed

lemma attempted_attempt_lines:
  "attempted (map (\<lambda>m. attempt_line ut m (gen m p n)) ms @ rest) = ms @ attempted rest"
proof (induction ms)
  case Nil
  show ?case by (simp add: attempted_def)
next
  case (Cons m ms)
  then show ?case
    by (cases "try_block (gen m p n)") (simp_all add: attempted_def attempt_line_def)
qed

lemma try_models_loop_attempted:
  "attempted (snd (try_models_loop ut gen ms p n)) =
     takeWhile (raises gen p n) ms @ take 1 (dropWhile (raises gen p n) ms)"
  unfolding try_models_loop_printed attempted_attempt_lines
  by (simp add: attempted_def)

lemma distinct_take_drop_while:
  "distinct ms \<Longrightarrow> distinct (takeWhile P ms @ take 1 (dropWhile P ms))"
proof -
  assume d: "distinct ms"
  have "ms = (takeWhile P ms @ take 1 (dropWhile P ms)) @ drop 1 (dropWhile P ms)"
    by simp
  with d show ?thesis
    by (metis distinct_append)
qed

text \<open>
  Claim C3. In one call of \<open>try_models\<close> the models attempted are, in the order of
  \<open>MODELS\<close>, the longest prefix of models whose attempt raises, followed by the first
  model whose attempt returns a text, if there is one. So the order is that of \<open>MODELS\<close>, no
  model is attempted twice, an attempt that raises (a quota error, logged \<open>Exhausted\<close>,
  or any other error, logged \<open>Other_error\<close>) is followed by the next model, and the first
  attempt that returns ends the call with its stripped text: no later model is attempted.
  The result is \<open>None\<close> exactly when every attempt raised.
\<close>

theorem cascade_order:
  "attempted (snd (try_models ut gen p n))
     = takeWhile (raises gen p n) MODELS @ take 1 (dropWhile (raises gen p n) MODELS)
   \<and> distinct (attempted (snd (try_models ut gen p n)))
   \<and> snd (try_models ut gen p n)
     = map (\<lambda>m. attempt_line ut m (gen m p n)) (attempted (snd (try_models ut gen p n)))
       @ (if dropWhile (raises gen p n) MODELS = [] then [All_exhausted] else [])
   \<and> fst (try_models ut gen p n)
     = (case dropWhile (raises gen p n) MODELS of
          [] \<Rightarrow> None
        | m # rest \<Rightarrow>
            (case gen m p n of
               Returned (Some t) \<Rightarrow> Some (py_strip t)
             | Returned None \<Rightarrow> None
             | Raised e \<Rightarrow> None))"
  unfolding try_models_def try_models_loop_attempted
  using distinct_take_drop_while [OF distinct_MODELS]
  by (simp add: try_models_loop_result_outcome try_models_loop_printed)

text \<open>
  The first model is out of quota and the second answers \<open>Hola\<close>: two attempts, the
  third model is not called.
\<close>

theorem cascade_order_witness:
  "try_models ascii_only quota_then_hola (py ''HOLA'') 100
     = (Some (py ''Hola''), [Exhausted (py ''gemini-1.5-flash''), Worked (py ''gemini-2.5-flash-lite'')])
   \<and> attempted (snd (try_models ascii_only quota_then_hola (py ''HOLA'') 100))
     = [py ''gemini-1.5-flash'', py ''gemini-2.5-flash-lite'']"
proof -
  have ev: "try_models ascii_only quota_then_hola (py ''HOLA'') 100
     = (Some (py ''Hola''), [Exhausted (py ''gemini-1.5-flash''), Worked (py ''gemini-2.5-flash-lite'')])"
    by (simp add: try_models_def MODELS_def quota_then_hola_def py_def py_strip_def isspace_def
        is_quota_error_def try_models_loop.simps(2))
  have "takeWhile (raises quota_then_hola (py ''HOLA'') 100) MODELS
          @ take 1 (dropWhile (raises quota_then_hola (py ''HOLA'') 100) MODELS)
        = [py ''gemini-1.5-flash'', py ''gemini-2.5-flash-lite'']"
    by (simp add: MODELS_def quota_then_hola_def py_def raises_def)
  with ev cascade_order [of ascii_only quota_then_hola "py ''HOLA''" 100]
  show ?thesis by simp
qed

lemma drop_while_first_return:
  "list_all (raises gen p n) pre \<Longrightarrow> gen model p n = Returned (Some t)
   \<Longrightarrow> takeWhile (raises gen p n) (pre @ model # post) = pre
       \<and> dropWhile (raises gen p n) (pre @ model # post) = model # post"
  by (induction pre) (simp_all add: raises_def)

lemma try_models_loop_first_return:
  "list_all (raises gen p n) pre \<Longrightarrow> gen model p n = Returned (Some t)
   \<Longrightarrow> fst (try_models_loop ut gen (pre @ model # post) p n) = Some (py_strip t)
       \<and> attempted (snd (try_models_loop ut gen (pre @ model # post) p n)) = pre @ [model]"
  using drop_while_first_return [of gen p n pre model t post]
  by (simp add: try_models_loop_result try_models_loop_attempted)

lemma try_models_loop_all_fail:
  "list_all (raises gen p n) ms \<Longrightarrow> fst (try_models_loop ut gen ms p n) = None"
proof -
  assume "list_all (raises gen p n) ms"
  then have "dropWhile (raises gen p n) ms = []"
    by (simp add: list_all_iff)
  then show ?thesis
    unfolding try_models_loop_result by (simp only: list.case)
qed

lemma falsy_gives_glosses_fallback:
  "glosses \<noteq> [] \<Longrightarrow> \<not> truthy (fst (try_models ut gen (glosses_prompt (py_join (py '' '') glosses)) 100))
   \<Longrightarrow> glosses_to_natural_text ut gen glosses = glosses_fallback ut glosses"
  by (cases "fst (try_models ut gen (glosses_prompt (py_join (py '' '') glosses)) 100)")
    (simp_all add: glosses_to_natural_text_def Let_def)

lemma falsy_gives_text_fallback:
  "py_strip text \<noteq> [] \<Longrightarrow> \<not> truthy (fst (try_models ut gen (text_prompt text) 50))
   \<Longrightarrow> natural_text_to_glosses ut gen text = text_fallback ut text"
  by (cases "fst (try_models ut gen (text_prompt text) 50)")
    (auto simp add: natural_text_to_glosses_def Let_def py_strip_def)

text \<open>
  Claim C5, as the code has it. If the attempts on the models before \<open>model\<close> raise and
  the call for \<open>model\<close> returns a response that carries the text \<open>t\<close>, then \<open>try_models\<close>
  returns \<open>t\<close> stripped, whatever it is, and none of the later models is attempted. If
  the stripped text is empty, the caller \<open>glosses_to_natural_text\<close> answers with the local
  fallback.
\<close>

theorem empty_response_stops_cascade:
  "MODELS = pre @ model # post \<Longrightarrow> list_all (raises gen p n) pre
   \<Longrightarrow> gen model p n = Returned (Some t)
   \<Longrightarrow> fst (try_models ut gen p n) = Some (py_strip t)
       \<and> attempted (snd (try_models ut gen p n)) = pre @ [model]
       \<and> list_all (\<lambda>m. m \<notin> set (attempted (snd (try_models ut gen p n)))) post
       \<and> (py_strip t = [] \<and> glosses \<noteq> [] \<and> p = glosses_prompt (py_join (py '' '') glosses)
            \<and> n = 100
          \<longrightarrow> glosses_to_natural_text ut gen glosses = glosses_fallback ut glosses)"
proof -
  assume ms: "MODELS = pre @ model # post" and pre: "list_all (raises gen p n) pre"
    and ret: "gen model p n = Returned (Some t)"
  have r: "fst (try_models ut gen p n) = Some (py_strip t)"
    and a: "attempted (snd (try_models ut gen p n)) = pre @ [model]"
    using try_models_loop_first_return [OF pre ret, of ut post]
    by (simp_all add: try_models_def ms)
  have "distinct (pre @ model # post)"
    using distinct_MODELS by (simp add: ms)
  then have later: "list_all (\<lambda>m. m \<notin> set (attempted (snd (try_models ut gen p n)))) post"
    by (auto simp add: a list_all_iff)
  have "py_strip t = [] \<and> glosses \<noteq> [] \<and> p = glosses_prompt (py_join (py '' '') glosses)
            \<and> n = 100
          \<longrightarrow> glosses_to_natural_text ut gen glosses = glosses_fallback ut glosses"
    using r by (auto intro: falsy_gives_glosses_fallback)
  with r a later show ?thesis by simp
qed

lemma glosses_fallback_hola_mundo:
  "glosses_fallback ut [py ''HOLA'', py ''MUNDO''] = py ''Hola mundo''"
  by (simp add: glosses_fallback_def py_def py_lower_def py_upper_def upper_cp_def
      py_replace_def)

text \<open>
  The second model answers with two blanks: the third model, which would have answered
  \<open>Buenos dias\<close>, is never called, and the caller gets the fallback text.
\<close>

theorem empty_response_stops_cascade_witness:
  "MODELS = [py ''gemini-1.5-flash''] @ py ''gemini-2.5-flash-lite'' # [py ''gemini-2.5-flash'']
   \<and> list_all (raises error_then_blank
        (glosses_prompt (py_join (py '' '') [py ''HOLA'', py ''MUNDO''])) 100)
        [py ''gemini-1.5-flash'']
   \<and> py_strip (py ''  '') = []
   \<and> error_then_blank (py ''gemini-2.5-flash-lite'')
        (glosses_prompt (py_join (py '' '') [py ''HOLA'', py ''MUNDO''])) 100
        = Returned (Some (py ''  ''))
   \<and> error_then_blank (py ''gemini-2.5-flash'')
        (glosses_prompt (py_join (py '' '') [py ''HOLA'', py ''MUNDO''])) 100
        = Returned (Some (py ''Buenos dias''))
   \<and> attempted (snd (try_models ascii_only error_then_blank
        (glosses_prompt (py_join (py '' '') [py ''HOLA'', py ''MUNDO''])) 100))
        = [py ''gemini-1.5-flash'', py ''gemini-2.5-flash-lite'']
   \<and> glosses_to_natural_text ascii_only error_then_blank [py ''HOLA'', py ''MUNDO'']
        = py ''Hola mundo''"
proof -
  let ?p = "glosses_prompt (py_join (py '' '') [py ''HOLA'', py ''MUNDO''])"
  have ms: "MODELS = [py ''gemini-1.5-flash''] @ py ''gemini-2.5-flash-lite''
      # [py ''gemini-2.5-flash'']"
    by (simp add: MODELS_def)
  have pre: "list_all (raises error_then_blank ?p 100) [py ''gemini-1.5-flash'']"
    by (simp add: error_then_blank_def raises_def)
  have ret: "error_then_blank (py ''gemini-2.5-flash-lite'') ?p 100
      = Returned (Some (py ''  ''))"
    by (simp add: error_then_blank_def py_def)
  have third: "error_then_blank (py ''gemini-2.5-flash'') ?p 100
      = Returned (Some (py ''Buenos dias''))"
    by (simp add: error_then_blank_def py_def)
  have blank: "py_strip (py ''  '') = []"
    by (simp add: py_strip_def py_def isspace_def)
  from empty_response_stops_cascade [OF ms pre ret, of ascii_only "[py ''HOLA'', py ''MUNDO'']"]
    blank ms pre ret third
  show ?thesis
    by (simp add: glosses_fallback_hola_mundo)
qed

text \<open>
  Claim C5 as stated speaks of every backend call that returns without raising. The call
  for the first model returns, with a response that carries no text: \<open>try_models\<close> does
  not return then. Reading the text raises inside the \<open>try\<close> block, the attempt is
  logged as an error, and the second model is attempted and gives the result.
\<close>

theorem response_without_text_continues:
  "none_then_hola (py ''gemini-1.5-flash'') (py ''HOLA'') 100 = Returned None
   \<and> try_models ascii_only none_then_hola (py ''HOLA'') 100
       = (Some (py ''Hola''),
          [Other_error (py ''gemini-1.5-flash'') none_has_no_strip,
           Worked (py ''gemini-2.5-flash-lite'')])
   \<and> attempted (snd (try_models ascii_only none_then_hola (py ''HOLA'') 100))
       = [py ''gemini-1.5-flash'', py ''gemini-2.5-flash-lite'']"
proof -
  have len: "length none_has_no_strip \<le> 100"
    by (simp add: none_has_no_strip_def py_def)
  have other: "\<not> is_quota_error ascii_only none_has_no_strip"
    by (simp add: is_quota_error_def none_has_no_strip_def py_def py_lower_def)
  have first: "none_then_hola (py ''gemini-1.5-flash'') (py ''HOLA'') 100 = Returned None"
    by (simp add: none_then_hola_def)
  have second: "none_then_hola (py ''gemini-2.5-flash-lite'') (py ''HOLA'') 100
      = Returned (Some (py '' Hola ''))"
    by (simp add: none_then_hola_def py_def)
  have strip: "py_strip (py '' Hola '') = py ''Hola''"
    by (simp add: py_strip_def py_def isspace_def)
  have run: "try_models ascii_only none_then_hola (py ''HOLA'') 100
       = (Some (py ''Hola''),
          [Other_error (py ''gemini-1.5-flash'') none_has_no_strip,
           Worked (py ''gemini-2.5-flash-lite'')])"
    using len other
    by (simp add: try_models_def MODELS_def try_models_loop.simps(2) first second strip)
  from first run show ?thesis
    by (simp add: attempted_def)
qed

lemma py_join_eq_Nil:
  "sep \<noteq> [] \<Longrightarrow> py_join sep xs = [] \<longleftrightarrow> xs = [] \<or> xs = [[]]"
  by (induction sep xs rule: py_join.induct) simp_all

lemma upper_cp_nonempty:
  "tables_total ut \<Longrightarrow> upper_cp ut c \<noteq> []"
  by (simp add: upper_cp_def tables_total_def)

lemma py_lower_nonempty:
  "tables_total ut \<Longrightarrow> s \<noteq> [] \<Longrightarrow> py_lower ut s \<noteq> []"
proof (cases s)
  case Nil
  assume "s \<noteq> []"
  with Nil show ?thesis by simp
next
  case (Cons c cs)
  assume "tables_total ut"
  then have "128 \<le> c \<Longrightarrow> lc ut (c # cs) 0 \<noteq> []"
    unfolding tables_total_def by (metis length_greater_0_conv list.discI nth_Cons_0)
  then show ?thesis
    using Cons by (auto simp add: py_lower_def)
qed

lemma glosses_fallback_nonempty:
  "tables_total ut \<Longrightarrow> glosses \<noteq> [] \<Longrightarrow> glosses \<noteq> [[]]
   \<Longrightarrow> glosses_fallback ut glosses \<noteq> []"
proof -
  assume tot: "tables_total ut" and ne: "glosses \<noteq> []" "glosses \<noteq> [[]]"
  have "py_join (py '' '') glosses \<noteq> []"
    using ne py_join_eq_Nil [of "py '' ''" glosses] by (simp add: py_def)
  then have "py_replace 95 32 (py_join (py '' '') glosses) \<noteq> []"
    by (simp add: py_replace_def)
  from py_lower_nonempty [OF tot this] show ?thesis
    using upper_cp_nonempty [OF tot]
    by (simp add: glosses_fallback_def Let_def py_upper_def split: list.splits)
qed

lemma all_fail_falsy:
  "all_fail gen p n \<Longrightarrow> \<not> truthy (fst (try_models ut gen p n))"
  by (simp add: all_fail_def try_models_def try_models_loop_all_fail)

text \<open>
  Claim C4, as the code has it. If the attempt on every model raises, then for a non-empty
  gloss list \<open>glosses_to_natural_text\<close> returns the local fallback: the glosses joined by
  spaces, underscores replaced by spaces, lower-cased, the first character upper-cased.
  For \<open>["HOLA", "MUNDO"]\<close> that is \<open>Hola mundo\<close>. The result is a non-empty string for every
  non-empty gloss list other than \<open>[""]\<close>, provided no code point has an empty case
  mapping; never an error.
\<close>

theorem fallback_when_all_fail:
  "glosses \<noteq> [] \<Longrightarrow> all_fail gen (glosses_prompt (py_join (py '' '') glosses)) 100
   \<Longrightarrow> glosses_to_natural_text ut gen glosses = glosses_fallback ut glosses
       \<and> (glosses = [py ''HOLA'', py ''MUNDO'']
            \<longrightarrow> glosses_to_natural_text ut gen glosses = py ''Hola mundo'')
       \<and> (tables_total ut \<and> glosses \<noteq> [[]]
            \<longrightarrow> glosses_to_natural_text ut gen glosses \<noteq> [])"
proof -
  assume ne: "glosses \<noteq> []"
    and fail: "all_fail gen (glosses_prompt (py_join (py '' '') glosses)) 100"
  have eq: "glosses_to_natural_text ut gen glosses = glosses_fallback ut glosses"
    using ne all_fail_falsy [OF fail] by (rule falsy_gives_glosses_fallback)
  then show ?thesis
    using ne by (auto simp add: glosses_fallback_hola_mundo dest: glosses_fallback_nonempty)
qed

lemma all_down_fails: "all_fail all_down p n"
  by (simp add: all_fail_def all_down_def raises_def MODELS_def)

lemma tables_total_ascii_only: "tables_total ascii_only"
  by (simp add: tables_total_def ascii_only_def)

text \<open>Every model is down and the glosses are \<open>HOLA\<close>, \<open>MUNDO\<close>.\<close>

theorem fallback_when_all_fail_witness:
  "[py ''HOLA'', py ''MUNDO''] \<noteq> []
   \<and> all_fail all_down (glosses_prompt (py_join (py '' '') [py ''HOLA'', py ''MUNDO''])) 100
   \<and> tables_total ascii_only
   \<and> glosses_to_natural_text ascii_only all_down [py ''HOLA'', py ''MUNDO''] = py ''Hola mundo''"
  using fallback_when_all_fail [OF _ all_down_fails, of "[py ''HOLA'', py ''MUNDO'']" ascii_only]
    all_down_fails tables_total_ascii_only
  by (simp add: glosses_fallback_hola_mundo)

text \<open>
  Claim C4 as stated promises a non-empty result for every non-empty gloss list. The list
  \<open>[""]\<close> is not empty, and with every model down the result is the empty string: the
  joined text is empty and the guard \<open>if result:\<close> leaves it so.
\<close>

theorem empty_gloss_gives_empty_text:
  "[[]] \<noteq> ([] :: str list)
   \<and> all_fail all_down (glosses_prompt (py_join (py '' '') [[]])) 100
   \<and> glosses_to_natural_text ascii_only all_down [[]] = []"
proof -
  have "glosses_to_natural_text ascii_only all_down [[]] = glosses_fallback ascii_only [[]]"
    using all_fail_falsy [OF all_down_fails] by (intro falsy_gives_glosses_fallback) simp_all
  then show ?thesis
    by (simp add: all_down_fails glosses_fallback_def py_lower_def py_replace_def)
qed

lemma re_sub_punctuation_filter:
  "re_sub_punctuation s = filter (\<lambda>c. c \<notin> set punctuation) s"
  by (induction s) simp_all

lemma split_from_concat:
  "concat (split_from cur s) = cur @ filter (\<lambda>c. \<not> isspace c) s"
  by (induction s arbitrary: cur) simp_all

lemma split_from_tokens:
  "list_all (\<lambda>c. \<not> isspace c) cur
   \<Longrightarrow> list_all (\<lambda>t. t \<noteq> [] \<and> list_all (\<lambda>c. \<not> isspace c) t) (split_from cur s)"
  by (induction s arbitrary: cur) simp_all

lemma py_split_tokens:
  "list_all (\<lambda>t. t \<noteq> [] \<and> list_all (\<lambda>c. \<not> isspace c) t) (py_split s)"
  unfolding py_split_def by (rule split_from_tokens) simp

lemma py_split_concat:
  "concat (py_split s) = filter (\<lambda>c. \<not> isspace c) s"
  by (simp add: py_split_def split_from_concat)

text \<open>
  Claim C8. The local fallback of \<open>natural_text_to_glosses\<close> lower-cases the text, deletes
  the punctuation marks, splits at white space (the words are the maximal runs without
  white space, none empty), keeps the words that are not stop words and have more than one
  character, and upper-cases them; when no word is kept it returns the upper-cased
  original text as the only gloss. Its result is never the empty list. It is what
  \<open>natural_text_to_glosses\<close> returns when the attempt on every model raises and the text
  has a character that is not white space; a text of white space only is answered with
  \<open>[]\<close> before the cascade runs and never reaches the fallback.
\<close>

theorem text_fallback_glosses:
  "text_fallback ut text =
     (if filter (\<lambda>w. w \<notin> set stop_words \<and> 1 < length w)
           (py_split (filter (\<lambda>c. c \<notin> set punctuation) (py_lower ut text))) = []
      then [py_upper ut text]
      else map (py_upper ut)
             (filter (\<lambda>w. w \<notin> set stop_words \<and> 1 < length w)
                (py_split (filter (\<lambda>c. c \<notin> set punctuation) (py_lower ut text)))))
   \<and> text_fallback ut text \<noteq> []
   \<and> concat (py_split s) = filter (\<lambda>c. \<not> isspace c) s
   \<and> list_all (\<lambda>t. t \<noteq> [] \<and> list_all (\<lambda>c. \<not> isspace c) t) (py_split s)
   \<and> (py_strip text \<noteq> [] \<and> all_fail gen (text_prompt text) 50
        \<longrightarrow> natural_text_to_glosses ut gen text = text_fallback ut text)"
proof -
  have a: "text_fallback ut text =
     (if filter (\<lambda>w. w \<notin> set stop_words \<and> 1 < length w)
           (py_split (filter (\<lambda>c. c \<notin> set punctuation) (py_lower ut text))) = []
      then [py_upper ut text]
      else map (py_upper ut)
             (filter (\<lambda>w. w \<notin> set stop_words \<and> 1 < length w)
                (py_split (filter (\<lambda>c. c \<notin> set punctuation) (py_lower ut text)))))"
    by (simp add: text_fallback_def Let_def re_sub_punctuation_filter)
  have b: "text_fallback ut text \<noteq> []"
    by (simp add: text_fallback_def Let_def)
  have c: "py_strip text \<noteq> [] \<and> all_fail gen (text_prompt text) 50
        \<longrightarrow> natural_text_to_glosses ut gen text = text_fallback ut text"
    using all_fail_falsy [of gen "text_prompt text" 50 ut] falsy_gives_text_fallback
    by blast
  from a b c py_split_concat [of s] py_split_tokens [of s] show ?thesis
    by simp
qed

lemma text_fallback_sample:
  "text_fallback ascii_only (py ''Hola, el mundo es grande!'')
     = [py ''HOLA'', py ''MUNDO'', py ''GRANDE'']"
  by (simp add: text_fallback_def py_def py_lower_def py_upper_def upper_cp_def py_split_def
      punctuation_def stop_words_def isspace_def)

lemma text_fallback_sample_stop:
  "text_fallback ascii_only (py ''El.'') = [py ''EL.'']"
  by (simp add: text_fallback_def py_def py_lower_def py_upper_def upper_cp_def py_split_def
      punctuation_def stop_words_def isspace_def)

text \<open>
  Every model is down. A sentence with punctuation and stop words; a text that consists
  of one stop word.
\<close>

theorem text_fallback_glosses_witness:
  "py_strip (py ''Hola, el mundo es grande!'') \<noteq> []
   \<and> all_fail all_down (text_prompt (py ''Hola, el mundo es grande!'')) 50
   \<and> natural_text_to_glosses ascii_only all_down (py ''Hola, el mundo es grande!'')
       = [py ''HOLA'', py ''MUNDO'', py ''GRANDE'']
   \<and> py_strip (py ''El.'') \<noteq> []
   \<and> natural_text_to_glosses ascii_only all_down (py ''El.'') = [py ''EL.'']"
proof -
  have s1: "py_strip (py ''Hola, el mundo es grande!'') \<noteq> []"
    and s2: "py_strip (py ''El.'') \<noteq> []"
    by (simp_all add: py_strip_def py_def isspace_def)
  from s1 s2 all_down_fails
    text_fallback_glosses [of ascii_only "py ''Hola, el mundo es grande!''" _ all_down]
    text_fallback_glosses [of ascii_only "py ''El.''" _ all_down]
  show ?thesis
    by (simp add: text_fallback_sample text_fallback_sample_stop)
qed

lemma py_upper_append: "py_upper ut (xs @ ys) = py_upper ut xs @ py_upper ut ys"
  by (simp add: py_upper_def)

lemma py_upper_upper_cp:
  "upper_stable ut \<Longrightarrow> py_upper ut (upper_cp ut c) = upper_cp ut c"
proof -
  assume st: "upper_stable ut"
  consider "97 \<le> c \<and> c \<le> 122" | "\<not> (97 \<le> c \<and> c \<le> 122)" "c < 128" | "128 \<le> c"
    by linarith
  then show ?thesis
  proof cases
    case 1
    then have up: "upper_cp ut c = [c - 32]"
      by (simp add: upper_cp_def)
    from 1 have "c - 32 < 97"
      by linarith
    then have "upper_cp ut (c - 32) = [c - 32]"
      by (simp add: upper_cp_def)
    then show ?thesis
      by (simp add: up py_upper_def)
  next
    case 2
    then have "upper_cp ut c = [c]"
      by (auto simp add: upper_cp_def)
    then show ?thesis
      by (simp add: py_upper_def)
  next
    case 3
    then have "upper_cp ut c = uc ut c"
      by (simp add: upper_cp_def)
    with 3 st show ?thesis
      by (simp add: upper_stable_def)
  qed
qed

lemma py_upper_idem:
  "upper_stable ut \<Longrightarrow> py_upper ut (py_upper ut s) = py_upper ut s"
proof (induction s)
  case Nil
  show ?case by (simp add: py_upper_def)
next
  case (Cons c s)
  have "py_upper ut (c # s) = upper_cp ut c @ py_upper ut s"
    by (simp add: py_upper_def)
  with Cons show ?case
    by (simp add: py_upper_append py_upper_upper_cp)
qed

lemma upper_cp_nonempty_stable:
  "upper_stable ut \<Longrightarrow> upper_cp ut c \<noteq> []"
  by (simp add: upper_cp_def upper_stable_def)

lemma py_upper_nonempty:
  "upper_stable ut \<Longrightarrow> s \<noteq> [] \<Longrightarrow> py_upper ut s \<noteq> []"
  by (cases s) (simp_all add: py_upper_def upper_cp_nonempty_stable)

lemma text_fallback_upper:
  "upper_stable ut \<Longrightarrow> text \<noteq> [] \<Longrightarrow> g \<in> set (text_fallback ut text)
   \<Longrightarrow> g \<noteq> [] \<and> py_upper ut g = g"
proof -
  assume st: "upper_stable ut" and ne: "text \<noteq> []" and g: "g \<in> set (text_fallback ut text)"
  from g consider "g = py_upper ut text"
    | w where "g = py_upper ut w" "w \<in> set (py_split (re_sub_punctuation (py_lower ut text)))"
    by (auto simp add: text_fallback_def Let_def split: if_splits)
  then show ?thesis
  proof cases
    case 1
    with st ne show ?thesis
      by (simp add: py_upper_idem py_upper_nonempty)
  next
    case 2
    from 2(2) py_split_tokens [of "re_sub_punctuation (py_lower ut text)"] have "w \<noteq> []"
      by (auto simp add: list_all_iff)
    with st 2(1) show ?thesis
      by (simp add: py_upper_idem py_upper_nonempty)
  qed
qed

text \<open>
  Claim C10. Every gloss returned by \<open>natural_text_to_glosses\<close>, from a model's answer or
  from the local fallback, is non-empty and equal to its own upper-casing. The case
  table of the runtime enters through \<open>upper_stable\<close>: beyond ASCII, every upper-case
  mapping is non-empty and is left unchanged by upper-casing.
\<close>

theorem glosses_are_upper_case:
  "upper_stable ut
   \<Longrightarrow> \<forall>g \<in> set (natural_text_to_glosses ut gen text). g \<noteq> [] \<and> py_upper ut g = g"
proof
  fix g
  assume st: "upper_stable ut" and g: "g \<in> set (natural_text_to_glosses ut gen text)"
  then have ne: "text \<noteq> []"
    by (auto simp add: natural_text_to_glosses_def)
  from g consider "g \<in> set (text_fallback ut text)"
    | w where "g = py_upper ut (py_strip w)" "py_strip w \<noteq> []"
    by (auto simp add: natural_text_to_glosses_def Let_def split: if_splits option.splits)
  then show "g \<noteq> [] \<and> py_upper ut g = g"
  proof cases
    case 1
    with st ne show ?thesis
      by (rule text_fallback_upper)
  next
    case 2
    with st show ?thesis
      by (simp add: py_upper_idem py_upper_nonempty)
  qed
qed

lemma upper_stable_ascii_only: "upper_stable ascii_only"
  by (simp add: upper_stable_def ascii_only_def py_upper_def upper_cp_def)

lemma natural_text_sample:
  "natural_text_to_glosses ascii_only quota_then_hola (py ''hola'') = [py ''HOLA'']"
  by (simp add: natural_text_to_glosses_def try_models_def MODELS_def quota_then_hola_def
      try_models_loop.simps(2) is_quota_error_def py_def py_strip_def isspace_def Let_def
      py_split_def py_upper_def upper_cp_def)

text \<open>The second model answers \<open>Hola\<close> with blanks around it.\<close>

theorem glosses_are_upper_case_witness:
  "upper_stable ascii_only
   \<and> natural_text_to_glosses ascii_only quota_then_hola (py ''hola'') = [py ''HOLA'']
   \<and> py ''HOLA'' \<noteq> [] \<and> py_upper ascii_only (py ''HOLA'') = py ''HOLA''"
  using glosses_are_upper_case [OF upper_stable_ascii_only, of quota_then_hola "py ''hola''"]
    upper_stable_ascii_only
  by (simp add: natural_text_sample)

end
